theory Spec2Isabelle
  imports Main "HOL-Library.Word" "HOL-Library.Signed_Division"
begin

unbundle bit_operations_syntax

section \<open>DS1216 SmartWatch real-time clock driver (DS1216Clock.ino)\<close>

text \<open>
  A shallow embedding of the Arduino sketch \<^verbatim>\<open>DS1216Clock.ino\<close>. The sketch
  bit-bangs a DS1216 clock chip over one bidirectional data line (DQ0) and three
  active-low control lines (chip enable, output enable, write enable).

  Arduino's \<^verbatim>\<open>byte\<close> is an unsigned 8-bit integer. C promotes a \<^verbatim>\<open>byte\<close> operand
  to \<^verbatim>\<open>int\<close> before arithmetic and truncates the result to 8 bits when it is
  converted back to \<^verbatim>\<open>byte\<close>; the model writes the promotion (\<open>uint\<close>) and the
  truncation (\<open>word_of_int\<close>) out.
\<close>

type_synonym byte = "8 word"

subsection \<open>Pin numbers, register indices and control bits\<close>

definition dsDQ0pin :: int where "dsDQ0pin = 4"
definition ds_WEpin :: int where "ds_WEpin = 5"
definition ds_OEpin :: int where "ds_OEpin = 6"
definition ds_CEpin :: int where "ds_CEpin = 7"

definition dsSubSecondRegister :: nat where "dsSubSecondRegister = 0"
definition dsSecondsRegister :: nat where "dsSecondsRegister = 1"
definition dsMinutesRegister :: nat where "dsMinutesRegister = 2"
definition dsHourRegister :: nat where "dsHourRegister = 3"
definition dsDayRegister :: nat where "dsDayRegister = 4"
definition dsDateRegister :: nat where "dsDateRegister = 5"
definition dsMonthRegister :: nat where "dsMonthRegister = 6"
definition dsYearRegister :: nat where "dsYearRegister = 7"

subsection \<open>BCD conversion functions\<close>

text \<open>\<^verbatim>\<open>return (dec/10)*16 + (dec%10);\<close> computed in \<^verbatim>\<open>int\<close>, returned as \<^verbatim>\<open>byte\<close>.\<close>

definition decimal2BCD :: "byte \<Rightarrow> byte" where
  "decimal2BCD dec = word_of_int ((uint dec div 10) * 16 + (uint dec mod 10))"

text \<open>\<^verbatim>\<open>return (bcd/16) * 10 + bcd%16;\<close>\<close>

definition BCD2Decimal :: "byte \<Rightarrow> byte" where
  "BCD2Decimal bcd = word_of_int ((uint bcd div 16) * 10 + uint bcd mod 16)"

text \<open>
  \<^verbatim>\<open>str[0] = bcd/16 + '0'; str[1] = bcd%16 + '0'; str[2] = '\0';\<close> The caller's
  buffer is returned; the model returns the two characters before the terminator.
\<close>

definition BCD2ASCII :: "byte \<Rightarrow> string" where
  "BCD2ASCII bcd =
     [char_of (uint bcd div 16 + of_char CHR ''0''),
      char_of (uint bcd mod 16 + of_char CHR ''0'')]"

text \<open>
  The two 4-bit halves of a byte, as the code takes them (\<^verbatim>\<open>bcd/16\<close> and
  \<^verbatim>\<open>bcd%16\<close>). A packed BCD byte has both of them in 0..9.
\<close>

definition high_nibble :: "byte \<Rightarrow> int" where
  "high_nibble b = uint b div 16"

definition low_nibble :: "byte \<Rightarrow> int" where
  "low_nibble b = uint b mod 16"

definition valid_bcd :: "byte \<Rightarrow> bool" where
  "valid_bcd b = (high_nibble b \<le> 9 \<and> low_nibble b \<le> 9)"


subsection \<open>The board: pins, the data line and the serial port\<close>

text \<open>
  \<^verbatim>\<open>pinMode\<close>, \<^verbatim>\<open>digitalWrite\<close>, \<^verbatim>\<open>digitalRead\<close> and \<^verbatim>\<open>Serial.print\<close> belong to
  the Arduino core, not to the sketch. The model gives them a state to act on: the
  list of pin operations performed so far (oldest first), the direction and the
  output level of each pin, the levels the data line will show at successive
  \<^verbatim>\<open>digitalRead\<close> calls (the chip's side of the wire, the \<open>k\<close>-th call sees
  \<open>line_in k\<close>), the number of reads done, and the text sent to the serial monitor.
\<close>

datatype pin_mode = INPUT | OUTPUT

abbreviation (input) LOW :: bool where "LOW \<equiv> False"
abbreviation (input) HIGH :: bool where "HIGH \<equiv> True"

datatype event =
    PinMode int pin_mode
  | DigitalWrite int bool
  | DigitalRead int bool

record board =
  events :: "event list"
  mode :: "int \<Rightarrow> pin_mode"
  level :: "int \<Rightarrow> bool"
  line_in :: "nat \<Rightarrow> bool"
  reads :: nat
  serial :: string

definition pinMode :: "int \<Rightarrow> pin_mode \<Rightarrow> board \<Rightarrow> board" where
  "pinMode pin m s = s\<lparr>events := events s @ [PinMode pin m], mode := (mode s)(pin := m)\<rparr>"

definition digitalWrite :: "int \<Rightarrow> bool \<Rightarrow> board \<Rightarrow> board" where
  "digitalWrite pin v s =
     s\<lparr>events := events s @ [DigitalWrite pin v], level := (level s)(pin := v)\<rparr>"

definition digitalRead :: "int \<Rightarrow> board \<Rightarrow> bool \<times> board" where
  "digitalRead pin s =
     (line_in s (reads s),
      s\<lparr>events := events s @ [DigitalRead pin (line_in s (reads s))], reads := Suc (reads s)\<rparr>)"

definition Serial_print :: "string \<Rightarrow> board \<Rightarrow> board" where
  "Serial_print str s = s\<lparr>serial := serial s @ str\<rparr>"

text \<open>\<^verbatim>\<open>Serial.println()\<close> sends a carriage return and a line feed.\<close>

definition Serial_println :: "board \<Rightarrow> board" where
  "Serial_println s = Serial_print [CHR 0x0D, CHR 0x0A] s"

subsection \<open>Bit-level and byte-level transport\<close>

definition dsChipEnable :: "bool \<Rightarrow> board \<Rightarrow> board" where
  "dsChipEnable enableChip s =
     (if enableChip then digitalWrite ds_CEpin LOW s
      else digitalWrite ds_CEpin HIGH s)"

definition dsWriteBit :: "bool \<Rightarrow> board \<Rightarrow> board" where
  "dsWriteBit bitLevel s =
     (let s = digitalWrite dsDQ0pin bitLevel s;
          s = digitalWrite ds_WEpin LOW s;
          s = digitalWrite ds_WEpin HIGH s
      in s)"

text \<open>
  The argument of \<^verbatim>\<open>dsWriteBit\<close> is a \<^verbatim>\<open>bool\<close>: \<^verbatim>\<open>n & 0x04\<close> converts to
  \<^verbatim>\<open>true\<close> exactly when it is not zero.
\<close>

definition dsSendByte :: "byte \<Rightarrow> board \<Rightarrow> board" where
  "dsSendByte n s =
     (let s = dsChipEnable True s;
          s = pinMode dsDQ0pin OUTPUT s;
          s = dsWriteBit (n AND 0x01 \<noteq> 0) s;
          s = dsWriteBit (n AND 0x02 \<noteq> 0) s;
          s = dsWriteBit (n AND 0x04 \<noteq> 0) s;
          s = dsWriteBit (n AND 0x08 \<noteq> 0) s;
          s = dsWriteBit (n AND 0x10 \<noteq> 0) s;
          s = dsWriteBit (n AND 0x20 \<noteq> 0) s;
          s = dsWriteBit (n AND 0x40 \<noteq> 0) s;
          s = dsWriteBit (n AND 0x80 \<noteq> 0) s;
          s = dsChipEnable False s
      in s)"

text \<open>\<^verbatim>\<open>digitalRead\<close> returns \<^verbatim>\<open>HIGH\<close> (1) or \<^verbatim>\<open>LOW\<close> (0), stored in a \<^verbatim>\<open>byte\<close>.\<close>

definition dsReadBit :: "board \<Rightarrow> byte \<times> board" where
  "dsReadBit s =
     (let s = digitalWrite ds_OEpin LOW s;
          (v, s) = digitalRead dsDQ0pin s;
          b = of_bool v;
          s = digitalWrite ds_OEpin HIGH s
      in (b, s))"

definition dsReadByte :: "board \<Rightarrow> byte \<times> board" where
  "dsReadByte s =
     (let s = pinMode dsDQ0pin INPUT s;
          s = dsChipEnable True s;
          (b, s) = dsReadBit s;
          (r, s) = dsReadBit s; b = b OR push_bit 1 r;
          (r, s) = dsReadBit s; b = b OR push_bit 2 r;
          (r, s) = dsReadBit s; b = b OR push_bit 3 r;
          (r, s) = dsReadBit s; b = b OR push_bit 4 r;
          (r, s) = dsReadBit s; b = b OR push_bit 5 r;
          (r, s) = dsReadBit s; b = b OR push_bit 6 r;
          (r, s) = dsReadBit s; b = b OR push_bit 7 r;
          s = dsChipEnable False s
      in (b, s))"

text \<open>
  \<^verbatim>\<open>dsReadRegisters\<close> stores eight received bytes into the caller's array, slots 0
  to 7 in that order. The callers pass an array of 8 bytes.
\<close>

definition dsReadRegisters :: "byte list \<Rightarrow> board \<Rightarrow> byte list \<times> board" where
  "dsReadRegisters dsRegister s =
     (let (b, s) = dsReadByte s; dsRegister = dsRegister[0 := b];
          (b, s) = dsReadByte s; dsRegister = dsRegister[1 := b];
          (b, s) = dsReadByte s; dsRegister = dsRegister[2 := b];
          (b, s) = dsReadByte s; dsRegister = dsRegister[3 := b];
          (b, s) = dsReadByte s; dsRegister = dsRegister[4 := b];
          (b, s) = dsReadByte s; dsRegister = dsRegister[5 := b];
          (b, s) = dsReadByte s; dsRegister = dsRegister[6 := b];
          (b, s) = dsReadByte s; dsRegister = dsRegister[7 := b]
      in (dsRegister, s))"

subsection \<open>Printing the registers\<close>

definition dsSerialPrintDate :: "byte list \<Rightarrow> board \<Rightarrow> board" where
  "dsSerialPrintDate dsRegister s =
     (let s = Serial_print ''20'' s;
          s = Serial_print (BCD2ASCII (dsRegister ! dsYearRegister)) s;
          s = Serial_print ''-'' s;
          s = Serial_print (BCD2ASCII (dsRegister ! dsMonthRegister)) s;
          s = Serial_print ''-'' s;
          s = Serial_print (BCD2ASCII (dsRegister ! dsDateRegister)) s
      in s)"

definition dsSerialPrintTime :: "byte list \<Rightarrow> board \<Rightarrow> board" where
  "dsSerialPrintTime dsRegister s =
     (let s = Serial_print (BCD2ASCII (dsRegister ! dsHourRegister)) s;
          s = Serial_print '':'' s;
          s = Serial_print (BCD2ASCII (dsRegister ! dsMinutesRegister)) s;
          s = Serial_print '':'' s;
          s = Serial_print (BCD2ASCII (dsRegister ! dsSecondsRegister)) s;
          s = Serial_print ''.'' s;
          s = Serial_print (BCD2ASCII (dsRegister ! dsSubSecondRegister)) s
      in s)"

definition dayStrings :: "string list" where
  "dayStrings =
     [''Monday'', ''Tuesday'', ''Wednesday'', ''Thursday'', ''Friday'', ''Saturday'', ''Sunday'']"

text \<open>
  \<^verbatim>\<open>dayStrings[dayIndex]\<close> is a plain C array access: the array has 7 entries, and
  an index outside 0..6 reads past its end, which C leaves undefined. The model
  returns the index as an error there instead of a string.
\<close>

datatype error = IndexOutOfBounds int

definition dsSerialPrintRegisters :: "byte list \<Rightarrow> board \<Rightarrow> error + board" where
  "dsSerialPrintRegisters dsRegister s =
     (let dayIndex = uint (dsRegister ! dsDayRegister) AND 0x0f
      in if 0 \<le> dayIndex \<and> dayIndex < int (length dayStrings) then
           Inr (let s = Serial_print (dayStrings ! nat dayIndex) s;
                    s = Serial_print '' '' s;
                    s = dsSerialPrintDate dsRegister s;
                    s = Serial_print '' '' s;
                    s = dsSerialPrintTime dsRegister s;
                    s = Serial_println s
                in s)
         else Inl (IndexOutOfBounds dayIndex))"

subsection \<open>Wake-up sequence, write cycle and read cycle\<close>

definition dsSendCodes :: "board \<Rightarrow> board" where
  "dsSendCodes s =
     (let s = dsChipEnable True s;
          s = pinMode dsDQ0pin INPUT s;
          (temp, s) = dsReadBit s;
          s = dsChipEnable False s;
          s = dsSendByte 0xC5 s;
          s = dsSendByte 0x3A s;
          s = dsSendByte 0xA3 s;
          s = dsSendByte 0x5C s;
          s = dsSendByte 0xC5 s;
          s = dsSendByte 0x3A s;
          s = dsSendByte 0xA3 s;
          s = dsSendByte 0x5C s
      in s)"

text \<open>
  The first parameter of \<^verbatim>\<open>dsWriteRegisters\<close> is an \<^verbatim>\<open>int\<close>, 16 bits wide and signed
  on the AVR boards the sketch is written for (the forward declaration at the top of
  the sketch says \<^verbatim>\<open>byte year\<close>; the function that is defined, and that a call
  with an \<^verbatim>\<open>int\<close> argument selects, takes \<^verbatim>\<open>int year\<close>). \<^verbatim>\<open>year % 100\<close> is C's remainder,
  which takes the sign of \<^verbatim>\<open>year\<close> (\<open>smod\<close>), and the result is converted to the
  \<^verbatim>\<open>byte\<close> parameter of \<^verbatim>\<open>decimal2BCD\<close>.

  \<open>dsWriteRegisters_reg\<close> is the local array \<^verbatim>\<open>reg\<close> after the eight assignments.
  The array is not initialised in the source; every slot is assigned before it is
  sent.
\<close>

definition dsWriteRegisters_reg ::
  "16 word \<Rightarrow> byte \<Rightarrow> byte \<Rightarrow> byte \<Rightarrow> byte \<Rightarrow> byte \<Rightarrow> byte \<Rightarrow> byte list" where
  "dsWriteRegisters_reg year month day dow hours minutes seconds =
     (let reg = replicate 8 0;
          reg = reg[dsSubSecondRegister := 0];
          reg = reg[dsSecondsRegister := decimal2BCD seconds];
          reg = reg[dsMinutesRegister := decimal2BCD minutes];
          reg = reg[dsHourRegister := decimal2BCD hours];
          reg = reg[dsDayRegister := decimal2BCD dow];
          reg = reg[dsDateRegister := decimal2BCD day];
          reg = reg[dsMonthRegister := decimal2BCD month];
          reg = reg[dsYearRegister := decimal2BCD (word_of_int (sint year smod 100))]
      in reg)"

definition dsWriteRegisters ::
  "16 word \<Rightarrow> byte \<Rightarrow> byte \<Rightarrow> byte \<Rightarrow> byte \<Rightarrow> byte \<Rightarrow> byte \<Rightarrow> board \<Rightarrow> board" where
  "dsWriteRegisters year month day dow hours minutes seconds s =
     (let reg = dsWriteRegisters_reg year month day dow hours minutes seconds;
          s = dsSendByte (reg ! 0) s;
          s = dsSendByte (reg ! 1) s;
          s = dsSendByte (reg ! 2) s;
          s = dsSendByte (reg ! 3) s;
          s = dsSendByte (reg ! 4) s;
          s = dsSendByte (reg ! 5) s;
          s = dsSendByte (reg ! 6) s;
          s = dsSendByte (reg ! 7) s
      in s)"

text \<open>
  \<^verbatim>\<open>dsReadAndPrintTime\<close> reads into a local array of 8 bytes, not initialised in
  the source; \<^verbatim>\<open>dsReadRegisters\<close> overwrites every slot.
\<close>

definition dsReadAndPrintTime :: "board \<Rightarrow> error + board" where
  "dsReadAndPrintTime s =
     (let s = dsSendCodes s;
          (dsRegisters, s) = dsReadRegisters (replicate 8 0) s
      in dsSerialPrintRegisters dsRegisters s)"

subsection \<open>Pin traces of the transport operations\<close>

text \<open>
  The pin operations of one byte sent, of one byte received (given the eight levels
  read), and of the single bit read that opens the wake-up sequence, each framed by
  chip enable going low and back high.
\<close>

definition send_byte_events :: "byte \<Rightarrow> event list" where
  "send_byte_events n =
     [DigitalWrite ds_CEpin LOW, PinMode dsDQ0pin OUTPUT]
     @ concat (map (\<lambda>i. [DigitalWrite dsDQ0pin (bit n i),
                          DigitalWrite ds_WEpin LOW, DigitalWrite ds_WEpin HIGH]) [0..<8])
     @ [DigitalWrite ds_CEpin HIGH]"

definition receive_byte_events :: "bool list \<Rightarrow> event list" where
  "receive_byte_events vs =
     [PinMode dsDQ0pin INPUT, DigitalWrite ds_CEpin LOW]
     @ concat (map (\<lambda>v. [DigitalWrite ds_OEpin LOW, DigitalRead dsDQ0pin v,
                          DigitalWrite ds_OEpin HIGH]) vs)
     @ [DigitalWrite ds_CEpin HIGH]"

definition first_read_events :: "bool \<Rightarrow> event list" where
  "first_read_events v =
     [DigitalWrite ds_CEpin LOW, PinMode dsDQ0pin INPUT,
      DigitalWrite ds_OEpin LOW, DigitalRead dsDQ0pin v, DigitalWrite ds_OEpin HIGH,
      DigitalWrite ds_CEpin HIGH]"

definition WakeCode :: "byte list" where
  "WakeCode = [0xC5, 0x3A, 0xA3, 0x5C, 0xC5, 0x3A, 0xA3, 0x5C]"

text \<open>The eight levels on the data line from read number \<open>k\<close> on, and the byte they spell
  least significant bit first.\<close>

definition line_bits :: "board \<Rightarrow> nat \<Rightarrow> bool list" where
  "line_bits s k = map (\<lambda>i. line_in s (k + i)) [0..<8]"

definition line_byte :: "board \<Rightarrow> nat \<Rightarrow> byte" where
  "line_byte s k = horner_sum of_bool 2 (line_bits s k)"

text \<open>
  Everything \<^verbatim>\<open>dsReadAndPrintTime\<close> does on the pins: its first two statements,
  the wake-up sequence and the eight register reads, before the printing.
\<close>

definition read_cycle :: "board \<Rightarrow> byte list \<times> board" where
  "read_cycle s = dsReadRegisters (replicate 8 0) (dsSendCodes s)"

text \<open>
  A board on which nothing has happened yet, wired to a data line \<open>line\<close>: the
  starting point of the worked examples.
\<close>

definition fresh_board :: "(nat \<Rightarrow> bool) \<Rightarrow> board" where
  "fresh_board line =
     \<lparr>events = [], mode = (\<lambda>p. INPUT), level = (\<lambda>p. LOW), line_in = line, reads = 0,
      serial = []\<rparr>"

subsection \<open>Calendar time and the register codec\<close>

text \<open>
  Modelled from the spec: the sketch has no type for a decoded date and time and no
  function that decodes the registers (it only prints them); the record, the chip
  ranges and \<open>decode_registers\<close> follow the spec's data model and register codec.
  \<open>encode_registers\<close> is the encoding the sketch performs in \<^verbatim>\<open>dsWriteRegisters\<close>,
  which has no parameter for the sub-second.
\<close>

record CalendarTime =
  ct_year :: nat
  ct_month :: nat
  ct_date :: nat
  ct_dow :: nat
  ct_hour :: nat
  ct_minute :: nat
  ct_second :: nat
  ct_subsecond :: nat

definition in_chip_ranges :: "CalendarTime \<Rightarrow> bool" where
  "in_chip_ranges ct =
     (ct_year ct \<le> 99 \<and> 1 \<le> ct_month ct \<and> ct_month ct \<le> 12
      \<and> 1 \<le> ct_date ct \<and> ct_date ct \<le> 31 \<and> 1 \<le> ct_dow ct \<and> ct_dow ct \<le> 7
      \<and> ct_hour ct \<le> 23 \<and> ct_minute ct \<le> 59 \<and> ct_second ct \<le> 59
      \<and> ct_subsecond ct \<le> 99)"

definition encode_registers :: "CalendarTime \<Rightarrow> byte list" where
  "encode_registers ct =
     dsWriteRegisters_reg (of_nat (ct_year ct)) (of_nat (ct_month ct)) (of_nat (ct_date ct))
       (of_nat (ct_dow ct)) (of_nat (ct_hour ct)) (of_nat (ct_minute ct))
       (of_nat (ct_second ct))"

definition decode_registers :: "byte list \<Rightarrow> CalendarTime" where
  "decode_registers reg =
     \<lparr>ct_year = unat (BCD2Decimal (reg ! dsYearRegister)),
      ct_month = unat (BCD2Decimal (reg ! dsMonthRegister)),
      ct_date = unat (BCD2Decimal (reg ! dsDateRegister)),
      ct_dow = unat (BCD2Decimal (reg ! dsDayRegister AND 0x0f)),
      ct_hour = unat (BCD2Decimal (reg ! dsHourRegister)),
      ct_minute = unat (BCD2Decimal (reg ! dsMinutesRegister)),
      ct_second = unat (BCD2Decimal (reg ! dsSecondsRegister)),
      ct_subsecond = unat (BCD2Decimal (reg ! dsSubSecondRegister))\<rparr>"

section \<open>Properties of the BCD codec\<close>

lemma uint_byte_bounds: "0 \<le> uint (b::byte) \<and> uint b < 256"
  using uint_bounded [of b] by simp

lemma uint_decimal2BCD:
  "uint (decimal2BCD dec) = ((uint dec div 10) * 16 + uint dec mod 10) mod 256"
  unfolding decimal2BCD_def uint_word_of_int by simp

lemma decode_fits_byte:
  assumes "0 \<le> (n::int)" and "n < 256"
  shows "0 \<le> (n div 16) * 10 + n mod 16 \<and> (n div 16) * 10 + n mod 16 < 256"
proof -
  from assms have "n div 16 \<le> 255 div 16" by (intro zdiv_mono1) simp_all
  then have q: "n div 16 \<le> 15" by simp
  from assms have q0: "0 \<le> n div 16" by (simp add: pos_imp_zdiv_nonneg_iff)
  have r: "0 \<le> n mod 16" "n mod 16 < 16" by simp_all
  from q q0 r show ?thesis by linarith
qed

lemma uint_BCD2Decimal:
  "uint (BCD2Decimal bcd) = (uint bcd div 16) * 10 + uint bcd mod 16"
  using decode_fits_byte [of "uint bcd"] uint_byte_bounds [of bcd]
  unfolding BCD2Decimal_def uint_word_of_int by simp

lemma encode_two_digits_fits:
  assumes "0 \<le> (n::int)" and "n \<le> 99"
  shows "((n div 10) * 16 + n mod 10) mod 256 = (n div 10) * 16 + n mod 10"
proof -
  from assms have "n div 10 \<le> 99 div 10" by (intro zdiv_mono1) simp_all
  then have q: "n div 10 \<le> 9" by simp
  from assms have q0: "0 \<le> n div 10" by (simp add: pos_imp_zdiv_nonneg_iff)
  have r: "0 \<le> n mod 10" "n mod 10 < 10" by simp_all
  from q q0 r show ?thesis by (intro mod_pos_pos_trivial) linarith+
qed

lemma split_base16:
  "0 \<le> (r::int) \<Longrightarrow> r < 16 \<Longrightarrow> (q * 16 + r) div 16 = q \<and> (q * 16 + r) mod 16 = r"
  by simp

lemma split_base10:
  "0 \<le> (r::int) \<Longrightarrow> r < 10 \<Longrightarrow> (q * 10 + r) div 10 = q \<and> (q * 10 + r) mod 10 = r"
  by simp

lemma uint_decimal2BCD_two_digits:
  assumes "uint d \<le> 99"
  shows "uint (decimal2BCD d) = (uint d div 10) * 16 + uint d mod 10"
  unfolding uint_decimal2BCD using encode_two_digits_fits [OF _ assms] by simp

lemma BCD2Decimal_decimal2BCD:
  assumes "uint d \<le> 99"
  shows "BCD2Decimal (decimal2BCD d) = d"
proof -
  have r: "0 \<le> uint d mod 10" "uint d mod 10 < 16" by simp_all
  have "uint (BCD2Decimal (decimal2BCD d)) = (uint d div 10) * 10 + uint d mod 10"
    unfolding uint_BCD2Decimal uint_decimal2BCD_two_digits [OF assms]
    using split_base16 [OF r] by simp
  then have "uint (BCD2Decimal (decimal2BCD d)) = uint d" by simp
  then show ?thesis by (simp add: word_uint_eq_iff)
qed

text \<open>
  Claim C7. For every integer \<open>d\<close> in 0..99, decoding the BCD encoding of \<open>d\<close> gives
  \<open>d\<close> back: \<open>BCD2Decimal (decimal2BCD d) = d\<close>.
\<close>

theorem C7_decode_encode_roundtrip:
  "d \<le> 99 \<Longrightarrow> BCD2Decimal (decimal2BCD d) = d"
  by (rule BCD2Decimal_decimal2BCD) (simp add: word_le_def)

theorem C7_decode_encode_roundtrip_witness:
  "(42::byte) \<le> 99 \<and> decimal2BCD 42 = 0x42 \<and> BCD2Decimal (decimal2BCD 42) = 42"
proof -
  have h: "(42::byte) \<le> 99" by simp
  have e: "decimal2BCD 42 = 0x42" by (simp add: decimal2BCD_def)
  from h e C7_decode_encode_roundtrip [OF h] show ?thesis by simp
qed

lemma decimal2BCD_BCD2Decimal:
  assumes "valid_bcd b"
  shows "decimal2BCD (BCD2Decimal b) = b"
proof -
  from assms have q: "uint b div 16 \<le> 9" and r: "uint b mod 16 \<le> 9"
    by (simp_all add: valid_bcd_def high_nibble_def low_nibble_def)
  have r0: "0 \<le> uint b mod 16" by simp
  have q0: "0 \<le> uint b div 16" by (simp add: pos_imp_zdiv_nonneg_iff)
  from r have r10: "uint b mod 16 < 10" by simp
  from q q0 r r0 have le: "uint (BCD2Decimal b) \<le> 99"
    unfolding uint_BCD2Decimal by linarith
  have "uint (decimal2BCD (BCD2Decimal b)) = (uint b div 16) * 16 + uint b mod 16"
    unfolding uint_decimal2BCD_two_digits [OF le] uint_BCD2Decimal
    using split_base10 [OF r0 r10] by simp
  then have "uint (decimal2BCD (BCD2Decimal b)) = uint b" by simp
  then show ?thesis by (simp add: word_uint_eq_iff)
qed

text \<open>
  Claim C8. For every byte \<open>b\<close> whose two 4-bit nibbles are each in 0..9, encoding
  the decoded value gives \<open>b\<close> back: \<open>decimal2BCD (BCD2Decimal b) = b\<close>.
\<close>

theorem C8_encode_decode_roundtrip:
  "high_nibble b \<le> 9 \<Longrightarrow> low_nibble b \<le> 9 \<Longrightarrow> decimal2BCD (BCD2Decimal b) = b"
  by (rule decimal2BCD_BCD2Decimal) (simp add: valid_bcd_def)

theorem C8_encode_decode_roundtrip_witness:
  "high_nibble 0x59 \<le> 9 \<and> low_nibble 0x59 \<le> 9 \<and> BCD2Decimal 0x59 = 59
     \<and> decimal2BCD (BCD2Decimal 0x59) = 0x59"
proof -
  have h: "high_nibble 0x59 \<le> 9" and l: "low_nibble 0x59 \<le> 9"
    by (simp_all add: high_nibble_def low_nibble_def)
  have d: "BCD2Decimal 0x59 = 59" by (simp add: BCD2Decimal_def)
  from h l d C8_encode_decode_roundtrip [OF h l] show ?thesis by simp
qed













section \<open>Transport, wake-up sequence and register codec\<close>

lemmas pin_defs = dsDQ0pin_def ds_WEpin_def ds_OEpin_def ds_CEpin_def

lemma upt_8: "[0..<8] = [0, 1, 2, 3, 4, 5, 6, 7]"
  by (simp add: upt_rec)

lemma pinMode_fields [simp]:
  "events (pinMode p m s) = events s @ [PinMode p m]"
  "level (pinMode p m s) = level s"
  "line_in (pinMode p m s) = line_in s"
  "reads (pinMode p m s) = reads s"
  "serial (pinMode p m s) = serial s"
  by (simp_all add: pinMode_def)

lemma digitalWrite_fields [simp]:
  "events (digitalWrite p v s) = events s @ [DigitalWrite p v]"
  "level (digitalWrite p v s) = (level s)(p := v)"
  "line_in (digitalWrite p v s) = line_in s"
  "reads (digitalWrite p v s) = reads s"
  "serial (digitalWrite p v s) = serial s"
  by (simp_all add: digitalWrite_def)

lemma digitalRead_fields [simp]:
  "fst (digitalRead p s) = line_in s (reads s)"
  "events (snd (digitalRead p s)) = events s @ [DigitalRead p (line_in s (reads s))]"
  "level (snd (digitalRead p s)) = level s"
  "line_in (snd (digitalRead p s)) = line_in s"
  "reads (snd (digitalRead p s)) = Suc (reads s)"
  "serial (snd (digitalRead p s)) = serial s"
  by (simp_all add: digitalRead_def)

lemma dsChipEnable_fields [simp]:
  "events (dsChipEnable e s) = events s @ [DigitalWrite ds_CEpin (\<not> e)]"
  "level (dsChipEnable e s) = (level s)(ds_CEpin := \<not> e)"
  "line_in (dsChipEnable e s) = line_in s"
  "reads (dsChipEnable e s) = reads s"
  "serial (dsChipEnable e s) = serial s"
  by (simp_all add: dsChipEnable_def)

lemma dsWriteBit_fields [simp]:
  "events (dsWriteBit v s) =
     events s @ [DigitalWrite dsDQ0pin v, DigitalWrite ds_WEpin LOW, DigitalWrite ds_WEpin HIGH]"
  "level (dsWriteBit v s) ds_CEpin = level s ds_CEpin"
  "line_in (dsWriteBit v s) = line_in s"
  "reads (dsWriteBit v s) = reads s"
  "serial (dsWriteBit v s) = serial s"
  by (simp_all add: dsWriteBit_def pin_defs)

lemma mask_bit:
  "(n AND 0x01 \<noteq> 0) = bit n 0" "(n AND 0x02 \<noteq> 0) = bit n 1"
  "(n AND 0x04 \<noteq> 0) = bit n 2" "(n AND 0x08 \<noteq> 0) = bit n 3"
  "(n AND 0x10 \<noteq> 0) = bit n 4" "(n AND 0x20 \<noteq> 0) = bit n 5"
  "(n AND 0x40 \<noteq> 0) = bit n 6" "(n AND 0x80 \<noteq> 0) = bit n 7"
  for n :: byte
  using and_exp_eq_0_iff_not_bit [of n 0] and_exp_eq_0_iff_not_bit [of n 1]
    and_exp_eq_0_iff_not_bit [of n 2] and_exp_eq_0_iff_not_bit [of n 3]
    and_exp_eq_0_iff_not_bit [of n 4] and_exp_eq_0_iff_not_bit [of n 5]
    and_exp_eq_0_iff_not_bit [of n 6] and_exp_eq_0_iff_not_bit [of n 7]
  by simp_all

lemma dsSendByte_fields:
  "events (dsSendByte n s) = events s @ send_byte_events n"
  "level (dsSendByte n s) ds_CEpin = HIGH"
  "line_in (dsSendByte n s) = line_in s"
  "reads (dsSendByte n s) = reads s"
  "serial (dsSendByte n s) = serial s"
  by (simp_all add: dsSendByte_def send_byte_events_def mask_bit upt_8)

lemma dsReadBit_fields [simp]:
  "fst (dsReadBit s) = of_bool (line_in s (reads s))"
  "events (snd (dsReadBit s)) =
     events s @ [DigitalWrite ds_OEpin LOW, DigitalRead dsDQ0pin (line_in s (reads s)),
                 DigitalWrite ds_OEpin HIGH]"
  "level (snd (dsReadBit s)) ds_CEpin = level s ds_CEpin"
  "line_in (snd (dsReadBit s)) = line_in s"
  "reads (snd (dsReadBit s)) = Suc (reads s)"
  "serial (snd (dsReadBit s)) = serial s"
  by (simp_all add: dsReadBit_def split_def pin_defs)

lemma line_bits_Suc:
  "line_bits s k =
     [line_in s k, line_in s (Suc k), line_in s (Suc (Suc k)), line_in s (Suc (Suc (Suc k))),
      line_in s (Suc (Suc (Suc (Suc k)))), line_in s (Suc (Suc (Suc (Suc (Suc k))))),
      line_in s (Suc (Suc (Suc (Suc (Suc (Suc k)))))),
      line_in s (Suc (Suc (Suc (Suc (Suc (Suc (Suc k)))))))]"
  by (simp add: line_bits_def upt_8 numeral_eq_Suc)

lemma assemble_byte:
  "of_bool v0 OR push_bit 1 (of_bool v1) OR push_bit 2 (of_bool v2) OR push_bit 3 (of_bool v3)
     OR push_bit 4 (of_bool v4) OR push_bit 5 (of_bool v5) OR push_bit 6 (of_bool v6)
     OR push_bit 7 (of_bool v7)
   = (horner_sum of_bool 2 [v0, v1, v2, v3, v4, v5, v6, v7] :: byte)"
proof (rule bit_word_eqI)
  fix n :: nat
  assume "n < LENGTH(8)"
  then have "n \<in> {0, 1, 2, 3, 4, 5, 6, 7}" by auto
  then show "bit (of_bool v0 OR push_bit 1 (of_bool v1) OR push_bit 2 (of_bool v2)
        OR push_bit 3 (of_bool v3) OR push_bit 4 (of_bool v4) OR push_bit 5 (of_bool v5)
        OR push_bit 6 (of_bool v6) OR push_bit 7 (of_bool v7) :: byte) n
     = bit (horner_sum of_bool 2 [v0, v1, v2, v3, v4, v5, v6, v7] :: byte) n"
    by (elim insertE emptyE)
      (simp_all add: bit_or_iff bit_push_bit_iff bit_of_bool_iff bit_horner_sum_bit_word_iff)
qed

lemma dsReadByte_value: "fst (dsReadByte s) = line_byte s (reads s)"
  by (simp add: dsReadByte_def split_def Let_def line_byte_def line_bits_Suc
      assemble_byte [symmetric])

lemma dsReadByte_fields:
  "events (snd (dsReadByte s)) = events s @ receive_byte_events (line_bits s (reads s))"
  "level (snd (dsReadByte s)) ds_CEpin = HIGH"
  "line_in (snd (dsReadByte s)) = line_in s"
  "reads (snd (dsReadByte s)) = reads s + 8"
  "serial (snd (dsReadByte s)) = serial s"
  by (simp_all add: dsReadByte_def split_def receive_byte_events_def line_bits_Suc Let_def)

lemma bit_line_byte: "bit (line_byte s k) i \<longleftrightarrow> i < 8 \<and> line_in s (k + i)"
  by (auto simp add: line_byte_def line_bits_def bit_horner_sum_bit_word_iff)

lemma dsSendCodes_fields:
  "events (dsSendCodes s) =
     events s @ first_read_events (line_in s (reads s)) @ concat (map send_byte_events WakeCode)"
  "level (dsSendCodes s) ds_CEpin = HIGH"
  "line_in (dsSendCodes s) = line_in s"
  "reads (dsSendCodes s) = Suc (reads s)"
  "serial (dsSendCodes s) = serial s"
  by (simp_all add: dsSendCodes_def split_def dsSendByte_fields first_read_events_def
      WakeCode_def Let_def)

lemma dsSendCodes_fold:
  "dsSendCodes s =
     fold dsSendByte WakeCode
       (dsChipEnable False (snd (dsReadBit (pinMode dsDQ0pin INPUT (dsChipEnable True s)))))"
  by (simp add: dsSendCodes_def WakeCode_def split_def Let_def)

lemmas reg_defs = dsSubSecondRegister_def dsSecondsRegister_def dsMinutesRegister_def
  dsHourRegister_def dsDayRegister_def dsDateRegister_def dsMonthRegister_def dsYearRegister_def

lemma replicate_8: "replicate 8 x = [x, x, x, x, x, x, x, x]"
  by (simp add: numeral_eq_Suc)

lemma list_of_length_8:
  assumes "length xs = 8"
  shows "\<exists>a b c d e f g h. xs = [a, b, c, d, e, f, g, h]"
  using assms by (auto simp add: numeral_eq_Suc length_Suc_conv)

lemma dsWriteRegisters_reg_list:
  "dsWriteRegisters_reg year month day dow hours minutes seconds =
     [0, decimal2BCD seconds, decimal2BCD minutes, decimal2BCD hours, decimal2BCD dow,
      decimal2BCD day, decimal2BCD month, decimal2BCD (word_of_int (sint year smod 100))]"
  by (simp add: dsWriteRegisters_reg_def reg_defs replicate_8 Let_def)

lemma line_after_dsReadByte [simp]:
  "line_bits (snd (dsReadByte s)) k = line_bits s k"
  "line_byte (snd (dsReadByte s)) k = line_byte s k"
  by (simp_all add: line_byte_def line_bits_def dsReadByte_fields)

lemma line_after_dsSendCodes [simp]:
  "line_bits (dsSendCodes s) k = line_bits s k"
  "line_byte (dsSendCodes s) k = line_byte s k"
  by (simp_all add: line_byte_def line_bits_def dsSendCodes_fields)

lemma dsReadRegisters_value:
  assumes "length regs = 8"
  shows "fst (dsReadRegisters regs s) = map (\<lambda>k. line_byte s (reads s + 8 * k)) [0..<8]"
proof -
  from list_of_length_8 [OF assms] obtain a b c d e f g h
    where "regs = [a, b, c, d, e, f, g, h]" by blast
  then show ?thesis
    by (simp add: dsReadRegisters_def split_def Let_def dsReadByte_value dsReadByte_fields upt_8
        add.commute)
qed

lemma dsReadRegisters_fields:
  "events (snd (dsReadRegisters regs s)) =
     events s @ concat (map (\<lambda>k. receive_byte_events (line_bits s (reads s + 8 * k))) [0..<8])"
  "level (snd (dsReadRegisters regs s)) ds_CEpin = HIGH"
  "line_in (snd (dsReadRegisters regs s)) = line_in s"
  "reads (snd (dsReadRegisters regs s)) = reads s + 64"
  "serial (snd (dsReadRegisters regs s)) = serial s"
  by (simp_all add: dsReadRegisters_def split_def Let_def dsReadByte_fields upt_8 add.commute)

lemma Serial_print_fields [simp]:
  "events (Serial_print str s) = events s"
  "level (Serial_print str s) = level s"
  "serial (Serial_print str s) = serial s @ str"
  by (simp_all add: Serial_print_def)

lemma dsSerialPrintDate_fields:
  "events (dsSerialPrintDate regs s) = events s"
  "level (dsSerialPrintDate regs s) = level s"
  "serial (dsSerialPrintDate regs s) =
     serial s @ ''20'' @ BCD2ASCII (regs ! 7) @ ''-'' @ BCD2ASCII (regs ! 6) @ ''-''
       @ BCD2ASCII (regs ! 5)"
  by (simp_all add: dsSerialPrintDate_def reg_defs Let_def)

lemma dsSerialPrintTime_fields:
  "events (dsSerialPrintTime regs s) = events s"
  "level (dsSerialPrintTime regs s) = level s"
  "serial (dsSerialPrintTime regs s) =
     serial s @ BCD2ASCII (regs ! 3) @ '':'' @ BCD2ASCII (regs ! 2) @ '':''
       @ BCD2ASCII (regs ! 1) @ ''.'' @ BCD2ASCII (regs ! 0)"
  by (simp_all add: dsSerialPrintTime_def reg_defs Let_def)

lemma dsSerialPrintRegisters_pins:
  assumes "dsSerialPrintRegisters regs s = Inr s'"
  shows "events s' = events s \<and> level s' = level s"
  using assms
  by (auto simp add: dsSerialPrintRegisters_def Let_def Serial_println_def
      dsSerialPrintDate_fields dsSerialPrintTime_fields split: if_splits)

lemma BCD2ASCII_digits:
  "BCD2ASCII 0x00 = ''00''" "BCD2ASCII 0x27 = ''27''" "BCD2ASCII 0x31 = ''31''"
  "BCD2ASCII 0x15 = ''15''" "BCD2ASCII 0x19 = ''19''" "BCD2ASCII 0x02 = ''02''"
  "BCD2ASCII 0x20 = ''20''"
  by (simp_all add: BCD2ASCII_def char_of_def)

text \<open>
  Claim C1 says that for the register image 00 27 31 15 07 19 02 20 the print routine
  writes \<open>Sunday 2020-02-19 15:31:27.00\<close>. The date and the time come out as
  claimed, but the weekday does not: the day register holds 7, the routine indexes
  \<^verbatim>\<open>dayStrings\<close> with 7, and the array ends at index 6. Evaluated on the code:
\<close>

theorem C1_sunday_image_reads_past_dayStrings:
  "dsSerialPrintRegisters [0x00, 0x27, 0x31, 0x15, 0x07, 0x19, 0x02, 0x20] s
     = Inl (IndexOutOfBounds 7)
   \<and> serial (dsSerialPrintDate [0x00, 0x27, 0x31, 0x15, 0x07, 0x19, 0x02, 0x20] s)
     = serial s @ ''2020-02-19''
   \<and> serial (dsSerialPrintTime [0x00, 0x27, 0x31, 0x15, 0x07, 0x19, 0x02, 0x20] s)
     = serial s @ ''15:31:27.00''"
  by (simp add: dsSerialPrintRegisters_def dayStrings_def reg_defs
      dsSerialPrintDate_fields dsSerialPrintTime_fields BCD2ASCII_digits)

text \<open>
  Claim C2 says that every day register with its low 4 bits in 1..7 makes the
  weekday lookup read an entry of the 7-entry array. At 7, the value the sketch's
  own comments give for the last day of the week, the code reads past the end:
\<close>

theorem C2_day_index_7_out_of_bounds:
  "1 \<le> uint (0x07::byte) AND 0x0f \<and> uint (0x07::byte) AND 0x0f \<le> 7
   \<and> \<not> uint (0x07::byte) AND 0x0f < int (length dayStrings)
   \<and> dsSerialPrintRegisters ((replicate 8 0)[dsDayRegister := 0x07]) s
       = Inl (IndexOutOfBounds 7)"
  by (simp add: dsSerialPrintRegisters_def dayStrings_def reg_defs replicate_8)

text \<open>
  With 6 in the day register the lookup is in range and the entry read is the last
  one, \<open>Sunday\<close>.
\<close>

lemma dsSerialPrintRegisters_day_6:
  "dsSerialPrintRegisters [0x00, 0x27, 0x31, 0x15, 0x06, 0x19, 0x02, 0x20] s =
     Inr (Serial_print (''Sunday 2020-02-19 15:31:27.00'' @ [CHR 0x0D, CHR 0x0A]) s)"
  by (simp add: dsSerialPrintRegisters_def dayStrings_def reg_defs Serial_println_def
      dsSerialPrintDate_def dsSerialPrintTime_def BCD2ASCII_digits Serial_print_def Let_def)

lemma unat_of_nat_byte: "n < 256 \<Longrightarrow> unat (of_nat n :: byte) = n"
  by (simp add: unat_of_nat)

lemma uint_of_nat_byte: "n < 256 \<Longrightarrow> uint (of_nat n :: byte) = int n"
  by (simp add: uint_nat unat_of_nat_byte)

lemma BCD2Decimal_0: "BCD2Decimal 0 = 0"
  by (simp add: BCD2Decimal_def)

lemma field_roundtrip:
  assumes "n \<le> 99"
  shows "unat (BCD2Decimal (decimal2BCD (of_nat n))) = n"
proof -
  from assms have u: "uint (of_nat n :: byte) = int n" by (simp add: uint_of_nat_byte)
  with assms have "BCD2Decimal (decimal2BCD (of_nat n)) = (of_nat n :: byte)"
    by (intro BCD2Decimal_decimal2BCD) simp
  with assms show ?thesis by (simp add: unat_of_nat_byte)
qed

lemma year_remainder_two_digits:
  assumes "y \<le> 99"
  shows "(word_of_int (sint (of_nat y :: 16 word) smod 100) :: byte) = of_nat y"
proof -
  from assms have "sint (of_nat y :: 16 word) = int y"
    by (simp add: signed_of_nat signed_take_bit_int_eq_self)
  with assms show ?thesis
    by (simp add: signed_modulo_int_def)
qed

lemma dow_roundtrip:
  assumes "1 \<le> d" "d \<le> 7"
  shows "unat (BCD2Decimal (decimal2BCD (of_nat d) AND 0x0f)) = d"
proof -
  from assms have "d \<in> {1, 2, 3, 4, 5, 6, 7}" by auto
  then show ?thesis
    by (elim insertE emptyE) (simp_all add: decimal2BCD_def BCD2Decimal_def)
qed

text \<open>
  Claim C3, as stated: every calendar time within the chip ranges, sub-second 0..99
  included, comes back unchanged from encoding and decoding. It fails for every
  sub-second other than 0, which the encoder has no way to take: here at 50.
\<close>

theorem C3_counterexample:
  "in_chip_ranges \<lparr>ct_year = 25, ct_month = 12, ct_date = 31, ct_dow = 3, ct_hour = 9,
      ct_minute = 5, ct_second = 0, ct_subsecond = 50\<rparr>
   \<and> decode_registers (encode_registers \<lparr>ct_year = 25, ct_month = 12, ct_date = 31,
      ct_dow = 3, ct_hour = 9, ct_minute = 5, ct_second = 0, ct_subsecond = 50\<rparr>)
       \<noteq> \<lparr>ct_year = 25, ct_month = 12, ct_date = 31, ct_dow = 3, ct_hour = 9,
      ct_minute = 5, ct_second = 0, ct_subsecond = 50\<rparr>"
  by (simp add: in_chip_ranges_def decode_registers_def encode_registers_def
      dsWriteRegisters_reg_list reg_defs BCD2Decimal_def)

text \<open>
  Claim C3, amended. For every calendar time within the chip ranges, encoding it
  with the per-field BCD encoding of \<^verbatim>\<open>dsWriteRegisters\<close> and decoding the
  registers gives back every field except the sub-second, which is always written
  as 0 and decodes as 0. So the round trip is the identity when the sub-second is
  0, as for year 25, month 12, date 31, day of week 3, 09:05:00.
\<close>

theorem C3_roundtrip_clears_subsecond:
  assumes "in_chip_ranges ct"
  shows "decode_registers (encode_registers ct) = ct\<lparr>ct_subsecond := 0\<rparr>"
  using assms
  by (cases ct)
    (simp add: in_chip_ranges_def decode_registers_def encode_registers_def
      dsWriteRegisters_reg_list reg_defs field_roundtrip year_remainder_two_digits
      dow_roundtrip BCD2Decimal_0)

theorem C3_roundtrip_clears_subsecond_witness:
  "in_chip_ranges \<lparr>ct_year = 25, ct_month = 12, ct_date = 31, ct_dow = 3, ct_hour = 9,
      ct_minute = 5, ct_second = 0, ct_subsecond = 0\<rparr>
   \<and> encode_registers \<lparr>ct_year = 25, ct_month = 12, ct_date = 31, ct_dow = 3, ct_hour = 9,
      ct_minute = 5, ct_second = 0, ct_subsecond = 0\<rparr>
       = [0x00, 0x00, 0x05, 0x09, 0x03, 0x31, 0x12, 0x25]
   \<and> decode_registers (encode_registers \<lparr>ct_year = 25, ct_month = 12, ct_date = 31,
      ct_dow = 3, ct_hour = 9, ct_minute = 5, ct_second = 0, ct_subsecond = 0\<rparr>)
       = \<lparr>ct_year = 25, ct_month = 12, ct_date = 31, ct_dow = 3, ct_hour = 9,
      ct_minute = 5, ct_second = 0, ct_subsecond = 0\<rparr>"
proof -
  let ?ct = "\<lparr>ct_year = 25, ct_month = 12, ct_date = 31, ct_dow = 3, ct_hour = 9,
      ct_minute = 5, ct_second = 0, ct_subsecond = 0\<rparr>"
  have r: "in_chip_ranges ?ct" by (simp add: in_chip_ranges_def)
  have e: "encode_registers ?ct = [0x00, 0x00, 0x05, 0x09, 0x03, 0x31, 0x12, 0x25]"
    by (simp add: encode_registers_def dsWriteRegisters_reg_list decimal2BCD_def
        signed_modulo_int_def)
  from r e C3_roundtrip_clears_subsecond [OF r] show ?thesis by simp
qed

lemma fresh_board_fields [simp]:
  "events (fresh_board line) = []"
  "level (fresh_board line) = (\<lambda>p. LOW)"
  "line_in (fresh_board line) = line"
  "reads (fresh_board line) = 0"
  "serial (fresh_board line) = []"
  by (simp_all add: fresh_board_def)

lemma dsWriteRegisters_events:
  "events (dsWriteRegisters year month day dow hours minutes seconds s) =
     events s
     @ concat (map send_byte_events (dsWriteRegisters_reg year month day dow hours minutes seconds))"
  by (simp add: dsWriteRegisters_def dsWriteRegisters_reg_list Let_def dsSendByte_fields)

lemma year_nibbles:
  assumes "0 \<le> sint year"
  shows "high_nibble (decimal2BCD (word_of_int (sint year smod 100))) = (sint year mod 100) div 10
    \<and> low_nibble (decimal2BCD (word_of_int (sint year smod 100))) = sint year mod 10"
proof -
  define m where "m = sint year mod 100"
  have m: "0 \<le> m" "m < 100" by (simp_all add: m_def)
  from assms have sm: "sint year smod 100 = m"
    by (simp add: signed_modulo_int_def m_def sgn_if)
  from m have u: "uint (word_of_int m :: byte) = m"
    by (simp add: uint_word_of_int)
  from m have le: "uint (word_of_int m :: byte) \<le> 99" unfolding u by simp
  have r: "0 \<le> m mod 10" "m mod 10 < 16" by simp_all
  have "m mod 10 = sint year mod 10"
    unfolding m_def by (simp add: mod_mod_cancel)
  then show ?thesis
    unfolding sm high_nibble_def low_nibble_def uint_decimal2BCD_two_digits [OF le] u
    using split_base16 [OF r] by (simp add: m_def)
qed

text \<open>
  Claim C10. \<^verbatim>\<open>dsWriteRegisters\<close> takes any \<^verbatim>\<open>int\<close> as the year and stores
  \<open>decimal2BCD (year % 100)\<close> in the year register: 2019 is stored as BCD 19, and
  for every year that is not negative the two nibbles are the last two decimal
  digits. The sub-second register is always 0. The eight registers are what the
  function sends, in index order.
\<close>

theorem C10_year_register_two_digits:
  "dsWriteRegisters_reg year month day dow hours minutes seconds ! dsYearRegister
     = decimal2BCD (word_of_int (sint year smod 100))
   \<and> dsWriteRegisters_reg year month day dow hours minutes seconds ! dsSubSecondRegister = 0
   \<and> dsWriteRegisters_reg 2019 month day dow hours minutes seconds ! dsYearRegister = 0x19
   \<and> (0 \<le> sint year \<longrightarrow>
        high_nibble (dsWriteRegisters_reg year month day dow hours minutes seconds ! dsYearRegister)
          = (sint year mod 100) div 10
        \<and> low_nibble (dsWriteRegisters_reg year month day dow hours minutes seconds ! dsYearRegister)
          = sint year mod 10)
   \<and> events (dsWriteRegisters year month day dow hours minutes seconds s)
       = events s @ concat (map send_byte_events
           (dsWriteRegisters_reg year month day dow hours minutes seconds))"
proof -
  have "decimal2BCD (word_of_int (sint (2019 :: 16 word) smod 100)) = 0x19"
    by (simp add: signed_modulo_int_def decimal2BCD_def)
  then show ?thesis
    using year_nibbles [of year]
    by (simp add: dsWriteRegisters_reg_list reg_defs dsWriteRegisters_events)
qed

theorem C10_year_register_two_digits_witness:
  "0 \<le> sint (2019 :: 16 word)
   \<and> dsWriteRegisters_reg 2019 2 3 7 21 27 0 = [0x00, 0x00, 0x27, 0x21, 0x07, 0x03, 0x02, 0x19]
   \<and> high_nibble (dsWriteRegisters_reg 2019 2 3 7 21 27 0 ! dsYearRegister) = 1
   \<and> low_nibble (dsWriteRegisters_reg 2019 2 3 7 21 27 0 ! dsYearRegister) = 9"
proof -
  have h: "0 \<le> sint (2019 :: 16 word)" by simp
  have e: "dsWriteRegisters_reg 2019 2 3 7 21 27 0 = [0x00, 0x00, 0x27, 0x21, 0x07, 0x03, 0x02, 0x19]"
    by (simp add: dsWriteRegisters_reg_list decimal2BCD_def signed_modulo_int_def)
  from C10_year_register_two_digits [of 2019 2 3 7 21 27 0 "fresh_board (\<lambda>k. False)"] h
  have "high_nibble (dsWriteRegisters_reg 2019 2 3 7 21 27 0 ! dsYearRegister) = sint (2019 :: 16 word) mod 100 div 10
     \<and> low_nibble (dsWriteRegisters_reg 2019 2 3 7 21 27 0 ! dsYearRegister) = sint (2019 :: 16 word) mod 10"
    by blast
  with h e show ?thesis by simp
qed

text \<open>
  Claim C4. The wake-up sequence performs one bit read, with chip enable low, the
  data line an input and chip enable high again afterwards, and then sends the
  eight bytes C5 3A A3 5C C5 3A A3 5C in that order: its pin trace is the trace of
  that read followed by the traces of the eight byte sends, it consumes exactly
  one level of the data line, and the value read is dropped.
\<close>

theorem C4_wake_sequence_trace:
  "events (dsSendCodes s) =
     events s
     @ [DigitalWrite ds_CEpin LOW, PinMode dsDQ0pin INPUT,
        DigitalWrite ds_OEpin LOW, DigitalRead dsDQ0pin (line_in s (reads s)),
        DigitalWrite ds_OEpin HIGH, DigitalWrite ds_CEpin HIGH]
     @ concat (map send_byte_events [0xC5, 0x3A, 0xA3, 0x5C, 0xC5, 0x3A, 0xA3, 0x5C])
   \<and> reads (dsSendCodes s) = reads s + 1
   \<and> dsSendCodes s =
       fold dsSendByte [0xC5, 0x3A, 0xA3, 0x5C, 0xC5, 0x3A, 0xA3, 0x5C]
         (dsChipEnable False (snd (dsReadBit (pinMode dsDQ0pin INPUT (dsChipEnable True s)))))
   \<and> (\<forall>n s'. events (dsSendByte n s') = events s' @ send_byte_events n)"
  using dsSendCodes_fields [of s] dsSendCodes_fold [of s]
  by (simp add: first_read_events_def WakeCode_def dsSendByte_fields)

theorem C4_wake_sequence_trace_witness:
  "length (events (dsSendCodes (fresh_board (\<lambda>k. False)))) = 6 + 8 * 27
   \<and> reads (dsSendCodes (fresh_board (\<lambda>k. False))) = 1
   \<and> take 6 (events (dsSendCodes (fresh_board (\<lambda>k. False)))) =
       [DigitalWrite ds_CEpin LOW, PinMode dsDQ0pin INPUT, DigitalWrite ds_OEpin LOW,
        DigitalRead dsDQ0pin LOW, DigitalWrite ds_OEpin HIGH, DigitalWrite ds_CEpin HIGH]"
proof -
  let ?s = "fresh_board (\<lambda>k. False)"
  note t = C4_wake_sequence_trace [of ?s]
  from t have e: "events (dsSendCodes ?s) =
     events ?s
     @ [DigitalWrite ds_CEpin LOW, PinMode dsDQ0pin INPUT,
        DigitalWrite ds_OEpin LOW, DigitalRead dsDQ0pin (line_in ?s (reads ?s)),
        DigitalWrite ds_OEpin HIGH, DigitalWrite ds_CEpin HIGH]
     @ concat (map send_byte_events [0xC5, 0x3A, 0xA3, 0x5C, 0xC5, 0x3A, 0xA3, 0x5C])"
    by (rule conjunct1)
  from t have r: "reads (dsSendCodes ?s) = reads ?s + 1"
    by (elim conjE)
  show ?thesis
    unfolding e r by (simp add: send_byte_events_def upt_8)
qed

text \<open>
  Claim C5. \<^verbatim>\<open>dsSendByte\<close> drives chip enable low, makes the data line an output,
  writes bits 0 to 7 of the byte in that order, each followed by a write-enable
  pulse, and drives chip enable high. \<^verbatim>\<open>dsReadByte\<close> makes the data line an
  input, drives chip enable low, reads 8 levels, each inside an output-enable
  pulse, drives chip enable high, and returns the byte whose bit \<open>i\<close> is the
  \<open>i\<close>-th level read.
\<close>

theorem C5_byte_transport_order:
  "events (dsSendByte n s) =
     events s
     @ [DigitalWrite ds_CEpin LOW, PinMode dsDQ0pin OUTPUT]
     @ concat (map (\<lambda>i. [DigitalWrite dsDQ0pin (bit n i),
                          DigitalWrite ds_WEpin LOW, DigitalWrite ds_WEpin HIGH]) [0..<8])
     @ [DigitalWrite ds_CEpin HIGH]
   \<and> events (snd (dsReadByte s)) =
     events s
     @ [PinMode dsDQ0pin INPUT, DigitalWrite ds_CEpin LOW]
     @ concat (map (\<lambda>i. [DigitalWrite ds_OEpin LOW, DigitalRead dsDQ0pin (line_in s (reads s + i)),
                          DigitalWrite ds_OEpin HIGH]) [0..<8])
     @ [DigitalWrite ds_CEpin HIGH]
   \<and> (\<forall>i<8. bit (fst (dsReadByte s)) i = line_in s (reads s + i))"
  using dsSendByte_fields(1) [of n s] dsReadByte_fields(1) [of s]
  by (simp add: send_byte_events_def receive_byte_events_def line_bits_def dsReadByte_value
      bit_line_byte comp_def)

theorem C5_byte_transport_order_witness:
  "(2::nat) < 8
   \<and> bit (fst (dsReadByte (fresh_board (\<lambda>k. k = 2)))) 2
   \<and> fst (dsReadByte (fresh_board (\<lambda>k. k = 2))) = 0x04"
proof -
  have v: "fst (dsReadByte (fresh_board (\<lambda>k. k = 2))) = 0x04"
    by (simp add: dsReadByte_value line_byte_def line_bits_def upt_8)
  from C5_byte_transport_order [of "0xC5" "fresh_board (\<lambda>k. k = 2)"]
  have "\<forall>i<8. bit (fst (dsReadByte (fresh_board (\<lambda>k. k = 2)))) i
          = line_in (fresh_board (\<lambda>k. k = 2)) (reads (fresh_board (\<lambda>k. k = 2)) + i)"
    by blast
  then have "bit (fst (dsReadByte (fresh_board (\<lambda>k. k = 2)))) 2
          = line_in (fresh_board (\<lambda>k. k = 2)) (reads (fresh_board (\<lambda>k. k = 2)) + 2)"
    by simp
  with v show ?thesis by simp
qed

lemma read_cycle_fields:
  "fst (read_cycle s) = map (\<lambda>k. line_byte s (reads s + 1 + 8 * k)) [0..<8]"
  "events (snd (read_cycle s)) =
     events s @ first_read_events (line_in s (reads s)) @ concat (map send_byte_events WakeCode)
     @ concat (map (\<lambda>k. receive_byte_events (line_bits s (reads s + 1 + 8 * k))) [0..<8])"
  "level (snd (read_cycle s)) ds_CEpin = HIGH"
  "serial (snd (read_cycle s)) = serial s"
  by (simp_all add: read_cycle_def dsReadRegisters_value dsReadRegisters_fields
      dsSendCodes_fields)

lemma dsReadAndPrintTime_read_cycle:
  "dsReadAndPrintTime s = dsSerialPrintRegisters (fst (read_cycle s)) (snd (read_cycle s))"
  by (simp add: dsReadAndPrintTime_def read_cycle_def split_def Let_def)

lemma last_transport_events:
  "last (first_read_events v) = DigitalWrite ds_CEpin HIGH"
  "last (send_byte_events n) = DigitalWrite ds_CEpin HIGH"
  "last (receive_byte_events vs) = DigitalWrite ds_CEpin HIGH"
  by (simp_all add: first_read_events_def send_byte_events_def receive_byte_events_def)

lemma line_byte_silent: "line_byte (fresh_board (\<lambda>k. False)) k = 0"
  by (simp add: line_byte_def line_bits_def upt_8)

lemma dsSerialPrintRegisters_zeros:
  "dsSerialPrintRegisters [0, 0, 0, 0, 0, 0, 0, 0] t =
     Inr (Serial_print (''Monday 2000-00-00 00:00:00.00'' @ [CHR 0x0D, CHR 0x0A]) t)"
  by (simp add: dsSerialPrintRegisters_def dayStrings_def reg_defs Serial_println_def
      dsSerialPrintDate_def dsSerialPrintTime_def BCD2ASCII_digits Serial_print_def Let_def)

text \<open>
  Claim C6. A read cycle is the wake-up sequence followed by exactly eight
  received bytes, stored in registers 0 to 7 in that order. The trace of every
  operation in it ends with chip enable driven high, chip enable is high after
  the eight reads, and printing touches no pin, so it is still high when the
  cycle has completed.
\<close>

theorem C6_read_cycle_order:
  "dsReadAndPrintTime s = dsSerialPrintRegisters (fst (read_cycle s)) (snd (read_cycle s))
   \<and> events (snd (read_cycle s)) =
       events s @ first_read_events (line_in s (reads s)) @ concat (map send_byte_events WakeCode)
       @ concat (map (\<lambda>k. receive_byte_events (line_bits s (reads s + 1 + 8 * k))) [0..<8])
   \<and> fst (read_cycle s) = map (\<lambda>k. line_byte s (reads s + 1 + 8 * k)) [0..<8]
   \<and> last (first_read_events v) = DigitalWrite ds_CEpin HIGH
   \<and> last (send_byte_events n) = DigitalWrite ds_CEpin HIGH
   \<and> last (receive_byte_events vs) = DigitalWrite ds_CEpin HIGH
   \<and> level (snd (read_cycle s)) ds_CEpin = HIGH
   \<and> (\<forall>s'. dsReadAndPrintTime s = Inr s' \<longrightarrow>
         events s' = events (snd (read_cycle s)) \<and> level s' ds_CEpin = HIGH)"
proof (intro conjI allI impI)
  show "dsReadAndPrintTime s = dsSerialPrintRegisters (fst (read_cycle s)) (snd (read_cycle s))"
    by (rule dsReadAndPrintTime_read_cycle)
  show "events (snd (read_cycle s)) =
       events s @ first_read_events (line_in s (reads s)) @ concat (map send_byte_events WakeCode)
       @ concat (map (\<lambda>k. receive_byte_events (line_bits s (reads s + 1 + 8 * k))) [0..<8])"
    by (rule read_cycle_fields(2))
  show "fst (read_cycle s) = map (\<lambda>k. line_byte s (reads s + 1 + 8 * k)) [0..<8]"
    by (rule read_cycle_fields(1))
  show "last (first_read_events v) = DigitalWrite ds_CEpin HIGH"
    by (rule last_transport_events(1))
  show "last (send_byte_events n) = DigitalWrite ds_CEpin HIGH"
    by (rule last_transport_events(2))
  show "last (receive_byte_events vs) = DigitalWrite ds_CEpin HIGH"
    by (rule last_transport_events(3))
  show "level (snd (read_cycle s)) ds_CEpin = HIGH"
    by (rule read_cycle_fields(3))
next
  fix s'
  assume run: "dsReadAndPrintTime s = Inr s'"
  then have "dsSerialPrintRegisters (fst (read_cycle s)) (snd (read_cycle s)) = Inr s'"
    by (simp only: dsReadAndPrintTime_read_cycle)
  then have p: "events s' = events (snd (read_cycle s)) \<and> level s' = level (snd (read_cycle s))"
    by (rule dsSerialPrintRegisters_pins)
  from p show "events s' = events (snd (read_cycle s))" by (rule conjunct1)
  from p have "level s' ds_CEpin = level (snd (read_cycle s)) ds_CEpin" by simp
  then show "level s' ds_CEpin = HIGH" by (simp only: read_cycle_fields(3))
qed

theorem C6_read_cycle_order_witness:
  "dsReadAndPrintTime (fresh_board (\<lambda>k. False))
     = Inr (Serial_print (''Monday 2000-00-00 00:00:00.00'' @ [CHR 0x0D, CHR 0x0A])
         (snd (read_cycle (fresh_board (\<lambda>k. False)))))
   \<and> level (Serial_print (''Monday 2000-00-00 00:00:00.00'' @ [CHR 0x0D, CHR 0x0A])
         (snd (read_cycle (fresh_board (\<lambda>k. False))))) ds_CEpin = HIGH
   \<and> reads (snd (read_cycle (fresh_board (\<lambda>k. False)))) = 65"
proof -
  let ?s = "fresh_board (\<lambda>k. False)"
  let ?s' = "Serial_print (''Monday 2000-00-00 00:00:00.00'' @ [CHR 0x0D, CHR 0x0A])
         (snd (read_cycle ?s))"
  have regs: "fst (read_cycle ?s) = [0, 0, 0, 0, 0, 0, 0, 0]"
    by (simp add: read_cycle_fields(1) line_byte_silent upt_8)
  have run: "dsReadAndPrintTime ?s = Inr ?s'"
    unfolding dsReadAndPrintTime_read_cycle regs dsSerialPrintRegisters_zeros ..
  have n: "reads (snd (read_cycle ?s)) = 65"
    by (simp add: read_cycle_def dsReadRegisters_fields dsSendCodes_fields)
  have "\<forall>s'. dsReadAndPrintTime ?s = Inr s' \<longrightarrow>
         events s' = events (snd (read_cycle ?s)) \<and> level s' ds_CEpin = HIGH"
    using C6_read_cycle_order [where s = "?s" and v = False and n = 0 and vs = "[]"] by (elim conjE)
  then have "dsReadAndPrintTime ?s = Inr ?s' \<longrightarrow>
         events ?s' = events (snd (read_cycle ?s)) \<and> level ?s' ds_CEpin = HIGH"
    by (rule spec)
  with run have "level ?s' ds_CEpin = HIGH" by (elim impE conjE)
  with run n show ?thesis by (intro conjI)
qed

end
